theory Spec2Isabelle
  imports Main "HOL-Library.Sublist"
begin

section \<open>Mutual-TLS authentication annotations (package authtls)\<close>

text \<open>
  A shallow embedding of \<^verbatim>\<open>internal/ingress/annotations/authtls/main.go\<close>:
  the \<^verbatim>\<open>Config\<close> struct, \<^verbatim>\<open>Config.Equal\<close> and \<^verbatim>\<open>authTLS.Parse\<close>.
  Strings are byte lists, as Go strings are. The packages \<^verbatim>\<open>parser\<close>, \<^verbatim>\<open>resolver\<close>,
  \<^verbatim>\<open>k8s\<close> and \<^verbatim>\<open>ing_errors\<close> are not part of the file; what \<^verbatim>\<open>Parse\<close> calls in
  them is taken as a parameter.
\<close>

subsection \<open>Regular expressions\<close>

text \<open>
  The four package-level patterns use literals, alternation, \<^verbatim>\<open>?\<close>, \<^verbatim>\<open>+\<close>, one negated
  character class and one leading \<^verbatim>\<open>^\<close>. \<^verbatim>\<open>MatchString\<close> reports whether the string
  contains any match of the pattern. Matching is by derivatives.
  The patterns are ASCII; a negated class of an ASCII character, repeated, accepts the
  same byte strings as it accepts UTF-8 encoded runes.
\<close>

datatype rx =
    Null
  | Eps
  | Chr char
  | NotChr char
  | Seq rx rx
  | Alt rx rx
  | Opt rx
  | Plus rx

fun nullable :: "rx \<Rightarrow> bool" where
  "nullable Null = False"
| "nullable Eps = True"
| "nullable (Chr c) = False"
| "nullable (NotChr c) = False"
| "nullable (Seq p q) = (nullable p \<and> nullable q)"
| "nullable (Alt p q) = (nullable p \<or> nullable q)"
| "nullable (Opt p) = True"
| "nullable (Plus p) = nullable p"

fun deriv :: "char \<Rightarrow> rx \<Rightarrow> rx" where
  "deriv c Null = Null"
| "deriv c Eps = Null"
| "deriv c (Chr d) = (if c = d then Eps else Null)"
| "deriv c (NotChr d) = (if c = d then Null else Eps)"
| "deriv c (Seq p q) =
     (if nullable p then Alt (Seq (deriv c p) q) (deriv c q) else Seq (deriv c p) q)"
| "deriv c (Alt p q) = Alt (deriv c p) (deriv c q)"
| "deriv c (Opt p) = deriv c p"
| "deriv c (Plus p) = Seq (deriv c p) (Opt (Plus p))"

text \<open>Some prefix of the string is in the language of the pattern.\<close>

fun prefixMatch :: "rx \<Rightarrow> string \<Rightarrow> bool" where
  "prefixMatch p [] = nullable p"
| "prefixMatch p (c # cs) = (nullable p \<or> prefixMatch (deriv c p) cs)"

text \<open>Some substring of the string is in the language of the pattern.\<close>

fun search :: "rx \<Rightarrow> string \<Rightarrow> bool" where
  "search p [] = nullable p"
| "search p (c # cs) = (prefixMatch p (c # cs) \<or> search p cs)"

text \<open>The whole string is in the language of the pattern.\<close>

fun accepts :: "rx \<Rightarrow> string \<Rightarrow> bool" where
  "accepts p [] = nullable p"
| "accepts p (c # cs) = accepts (deriv c p) cs"

text \<open>A compiled pattern: whether it starts with \<^verbatim>\<open>^\<close>, and the rest.\<close>

datatype regexp = Regexp bool rx

fun MatchString :: "regexp \<Rightarrow> string \<Rightarrow> bool" where
  "MatchString (Regexp True p) s = prefixMatch p s"
| "MatchString (Regexp False p) s = search p s"

fun Lit :: "string \<Rightarrow> rx" where
  "Lit [] = Eps"
| "Lit (c # cs) = Seq (Chr c) (Lit cs)"

text \<open>\<^verbatim>\<open>on|off|optional|optional_no_ca\<close>\<close>

definition authVerifyClientRegex :: regexp where
  "authVerifyClientRegex =
     Regexp False
       (Alt (Lit ''on'') (Alt (Lit ''off'') (Alt (Lit ''optional'') (Lit ''optional_no_ca''))))"

text \<open>\<^verbatim>\<open>on|off|leaf\<close>\<close>

definition authOCSPRegex :: regexp where
  "authOCSPRegex = Regexp False (Alt (Lit ''on'') (Alt (Lit ''off'') (Lit ''leaf'')))"

text \<open>\<^verbatim>\<open>off|shared:[^\:]+:[^\:]+\<close>\<close>

definition authOCSPCacheRegex :: regexp where
  "authOCSPCacheRegex =
     Regexp False
       (Alt (Lit ''off'')
            (Seq (Lit ''shared:'')
                 (Seq (Plus (NotChr CHR '':''))
                      (Seq (Chr CHR '':'') (Plus (NotChr CHR '':''))))))"

text \<open>\<^verbatim>\<open>^http?://\<close>: the \<^verbatim>\<open>?\<close> applies to the \<^verbatim>\<open>p\<close>.\<close>

definition httpOnlyRegex :: regexp where
  "httpOnlyRegex =
     Regexp True (Seq (Lit ''htt'') (Seq (Opt (Chr CHR ''p'')) (Lit ''://'')))"

subsection \<open>Case-insensitive comparison\<close>

text \<open>
  \<^verbatim>\<open>strings.EqualFold\<close>, byte by byte as in its ASCII loop: two bytes agree when they
  are equal or when the smaller is an upper-case letter and the larger is its lower-case
  form. \<^verbatim>\<open>Parse\<close> calls it with the second argument \<^verbatim>\<open>"on"\<close> only, and the
  statements below compare with \<^verbatim>\<open>"on"\<close> and \<^verbatim>\<open>"off"\<close>; the letters o, n and f fold
  to nothing outside ASCII, so a first argument with a byte above 127 is unequal in Go
  and here.
\<close>

definition foldEq :: "char \<Rightarrow> char \<Rightarrow> bool" where
  "foldEq sr tr =
     (if tr = sr then True
      else (let lo = min (of_char sr :: nat) (of_char tr); hi = max (of_char sr :: nat) (of_char tr)
            in 65 \<le> lo \<and> lo \<le> 90 \<and> hi = lo + 32))"

fun EqualFold :: "string \<Rightarrow> string \<Rightarrow> bool" where
  "EqualFold [] [] = True"
| "EqualFold (a # s) (b # t) = (foldEq a b \<and> EqualFold s t)"
| "EqualFold [] (b # t) = False"
| "EqualFold (a # s) [] = False"

subsection \<open>Errors\<close>

text \<open>
  The error values that can leave \<^verbatim>\<open>Parse\<close>: the two kinds it builds itself
  (\<^verbatim>\<open>LocationDenied\<close>, carrying the message of its reason, and
  \<^verbatim>\<open>InvalidConfiguration\<close>, made by \<^verbatim>\<open>NewInvalidAnnotationConfiguration\<close> from the
  annotation name and the reason), and the two the annotation extractor hands back
  when a key is absent or its value has the wrong shape.
\<close>

datatype error =
    MissingAnnotations
  | InvalidContent string string
  | LocationDenied string
  | InvalidConfiguration string string

definition NewLocationDenied :: "string \<Rightarrow> error" where
  "NewLocationDenied reason = LocationDenied reason"

definition NewInvalidAnnotationConfiguration :: "string \<Rightarrow> string \<Rightarrow> error" where
  "NewInvalidAnnotationConfiguration name reason = InvalidConfiguration name reason"

text \<open>\<^verbatim>\<open>errors.Wrap(err, message)\<close>, by its message: the context, a colon, the cause.\<close>

definition Wrap :: "string \<Rightarrow> string \<Rightarrow> string" where
  "Wrap err message = message @ '': '' @ err"


subsection \<open>The configuration\<close>

definition defaultAuthTLSDepth :: int where
  "defaultAuthTLSDepth = 1"

definition defaultAuthVerifyClient :: string where
  "defaultAuthVerifyClient = ''on''"

definition defaultOCSP :: string where
  "defaultOCSP = ''off''"

definition defaultOCSPCache :: string where
  "defaultOCSPCache = ''off''"

text \<open>
  \<^verbatim>\<open>Config\<close>. The embedded \<^verbatim>\<open>resolver.AuthSSLCert\<close> is declared in another package;
  its type is the parameter \<open>'c\<close>. \<^verbatim>\<open>ValidationDepth\<close> is a Go \<^verbatim>\<open>int\<close>; it is only
  compared and copied, never computed with.
\<close>

record 'c Config =
  AuthSSLCert :: 'c
  VerifyClient :: string
  ValidationDepth :: int
  ErrorPage :: string
  PassCertToUpstream :: bool
  OCSP :: string
  OCSPResponder :: string
  OCSPCache :: string
  AuthTLSError :: string

subsection \<open>Equal\<close>

text \<open>
  A \<^verbatim>\<open>*Config\<close> is \<open>None\<close> for nil or \<open>Some a\<close> for the object at address \<open>a\<close> of
  the store. Reading a field through a pointer goes through \<open>deref\<close>, which panics on
  nil. \<open>certEqual\<close> stands for \<^verbatim>\<open>AuthSSLCert.Equal\<close> of the resolver package,
  called on the two embedded certificates.
\<close>

datatype panic = NilDereference

type_synonym 'c store = "nat \<Rightarrow> 'c Config"

definition deref :: "'c store \<Rightarrow> nat option \<Rightarrow> panic + 'c Config" where
  "deref h p = (case p of None \<Rightarrow> Inl NilDereference | Some a \<Rightarrow> Inr (h a))"

definition Equal ::
  "('c \<Rightarrow> 'c \<Rightarrow> bool) \<Rightarrow> 'c store \<Rightarrow> nat option \<Rightarrow> nat option \<Rightarrow> panic + bool" where
  "Equal certEqual h assl1 assl2 =
     (if assl1 = assl2 then Inr True
      else if assl1 = None \<or> assl2 = None then Inr False
      else (case deref h assl1 of
              Inl e \<Rightarrow> Inl e
            | Inr c1 \<Rightarrow>
          (case deref h assl2 of
              Inl e \<Rightarrow> Inl e
            | Inr c2 \<Rightarrow>
              if \<not> certEqual (AuthSSLCert c1) (AuthSSLCert c2) then Inr False
              else if VerifyClient c1 \<noteq> VerifyClient c2 then Inr False
              else if ValidationDepth c1 \<noteq> ValidationDepth c2 then Inr False
              else if ErrorPage c1 \<noteq> ErrorPage c2 then Inr False
              else if PassCertToUpstream c1 \<noteq> PassCertToUpstream c2 then Inr False
              else if OCSP c1 \<noteq> OCSP c2 then Inr False
              else if OCSPResponder c1 \<noteq> OCSPResponder c2 then Inr False
              else if OCSPCache c1 \<noteq> OCSPCache c2 then Inr False
              else Inr True)))"

subsection \<open>Parse\<close>

text \<open>
  What \<^verbatim>\<open>Parse\<close> calls outside the file: the three typed annotation getters of the
  parser package (on the ingress, of type \<open>'i\<close>), \<^verbatim>\<open>k8s.ParseNameNS\<close>, and the zero
  value of \<^verbatim>\<open>resolver.AuthSSLCert\<close> that \<^verbatim>\<open>&Config{}\<close> holds. A failing
  \<^verbatim>\<open>ParseNameNS\<close> or resolver gives an error of which \<^verbatim>\<open>Parse\<close> uses the message only.
\<close>

record ('i, 'c) deps =
  GetStringAnnotation :: "string \<Rightarrow> 'i \<Rightarrow> error + string"
  GetIntAnnotation :: "string \<Rightarrow> 'i \<Rightarrow> error + int"
  GetBoolAnnotation :: "string \<Rightarrow> 'i \<Rightarrow> error + bool"
  ParseNameNS :: "string \<Rightarrow> string + string \<times> string"
  zeroAuthSSLCert :: 'c

text \<open>
  \<^verbatim>\<open>authTLS\<close>: the resolver, by its one method \<^verbatim>\<open>GetAuthCertificate\<close>. It gives
  a certificate or an error, of which \<^verbatim>\<open>Parse\<close> wraps the message; a nil certificate
  without an error is outside the resolver's contract.
\<close>

record 'c authTLS =
  GetAuthCertificate :: "string \<Rightarrow> string + 'c"

text \<open>\<^verbatim>\<open>&Config{}\<close>: every field at its zero value.\<close>

definition zeroConfig :: "('i, 'c) deps \<Rightarrow> 'c Config" where
  "zeroConfig d =
     \<lparr> AuthSSLCert = zeroAuthSSLCert d, VerifyClient = [], ValidationDepth = 0,
       ErrorPage = [], PassCertToUpstream = False, OCSP = [], OCSPResponder = [],
       OCSPCache = [], AuthTLSError = [] \<rparr>"

text \<open>Lines 129 to 132.\<close>

definition parseVerifyClient :: "('i, 'c) deps \<Rightarrow> 'i \<Rightarrow> string" where
  "parseVerifyClient d ing =
     (case GetStringAnnotation d ''auth-tls-verify-client'' ing of
        Inl err \<Rightarrow> defaultAuthVerifyClient
      | Inr v \<Rightarrow> if MatchString authVerifyClientRegex v then v else defaultAuthVerifyClient)"

text \<open>Lines 134 to 137.\<close>

definition parseValidationDepth :: "('i, 'c) deps \<Rightarrow> 'i \<Rightarrow> int" where
  "parseValidationDepth d ing =
     (case GetIntAnnotation d ''auth-tls-verify-depth'' ing of
        Inl err \<Rightarrow> defaultAuthTLSDepth
      | Inr n \<Rightarrow> if n = 0 then defaultAuthTLSDepth else n)"

text \<open>Lines 139 to 142.\<close>

definition parseErrorPage :: "('i, 'c) deps \<Rightarrow> 'i \<Rightarrow> string" where
  "parseErrorPage d ing =
     (case GetStringAnnotation d ''auth-tls-error-page'' ing of
        Inl err \<Rightarrow> []
      | Inr v \<Rightarrow> v)"

text \<open>Lines 144 to 147.\<close>

definition parsePassCertToUpstream :: "('i, 'c) deps \<Rightarrow> 'i \<Rightarrow> bool" where
  "parsePassCertToUpstream d ing =
     (case GetBoolAnnotation d ''auth-tls-pass-certificate-to-upstream'' ing of
        Inl err \<Rightarrow> False
      | Inr b \<Rightarrow> b)"

text \<open>Lines 149 to 152.\<close>

definition parseOCSP :: "('i, 'c) deps \<Rightarrow> 'i \<Rightarrow> string" where
  "parseOCSP d ing =
     (case GetStringAnnotation d ''auth-tls-ocsp'' ing of
        Inl err \<Rightarrow> defaultOCSP
      | Inr v \<Rightarrow> if MatchString authOCSPRegex v then v else defaultOCSP)"

text \<open>Lines 159 to 162.\<close>

definition parseOCSPResponder :: "('i, 'c) deps \<Rightarrow> 'i \<Rightarrow> string" where
  "parseOCSPResponder d ing =
     (case GetStringAnnotation d ''auth-tls-ocsp-responder'' ing of
        Inl err \<Rightarrow> []
      | Inr v \<Rightarrow> if MatchString httpOnlyRegex v then v else [])"

text \<open>Lines 164 to 167.\<close>

definition parseOCSPCache :: "('i, 'c) deps \<Rightarrow> 'i \<Rightarrow> string" where
  "parseOCSPCache d ing =
     (case GetStringAnnotation d ''auth-tls-ocsp-cache'' ing of
        Inl err \<Rightarrow> defaultOCSPCache
      | Inr v \<Rightarrow> if MatchString authOCSPCacheRegex v then v else defaultOCSPCache)"

text \<open>
  \<^verbatim>\<open>Parse\<close> returns a pair: the configuration pointer (\<open>None\<close> for nil) and the error
  (\<open>None\<close> for nil). The three early returns hand back \<^verbatim>\<open>&Config{}\<close> with the error;
  the cross-field check hands back nil with the error.
\<close>

definition Parse ::
  "('i, 'c) deps \<Rightarrow> 'c authTLS \<Rightarrow> 'i \<Rightarrow> 'c Config option \<times> error option" where
  "Parse d a ing =
     (case GetStringAnnotation d ''auth-tls-secret'' ing of
        Inl err \<Rightarrow> (Some (zeroConfig d), Some err)
      | Inr tlsauthsecret \<Rightarrow>
     (case ParseNameNS d tlsauthsecret of
        Inl err \<Rightarrow> (Some (zeroConfig d), Some (NewLocationDenied err))
      | Inr nsname \<Rightarrow>
     (case GetAuthCertificate a tlsauthsecret of
        Inl err \<Rightarrow>
          (Some (zeroConfig d), Some (LocationDenied (Wrap err ''error obtaining certificate'')))
      | Inr authCert \<Rightarrow>
          (let verifyClient = parseVerifyClient d ing;
               validationDepth = parseValidationDepth d ing;
               errorPage = parseErrorPage d ing;
               passCertToUpstream = parsePassCertToUpstream d ing;
               ocsp = parseOCSP d ing
           in if EqualFold ocsp ''on'' \<and> \<not> EqualFold verifyClient ''on''
              then (None,
                    Some (NewInvalidAnnotationConfiguration ''auth-tls-ocsp''
                            ''requires auth-tls-verify-client to be set on''))
              else (Some \<lparr> AuthSSLCert = authCert, VerifyClient = verifyClient,
                           ValidationDepth = validationDepth, ErrorPage = errorPage,
                           PassCertToUpstream = passCertToUpstream, OCSP = ocsp,
                           OCSPResponder = parseOCSPResponder d ing,
                           OCSPCache = parseOCSPCache d ing,
                           AuthTLSError = [] \<rparr>,
                    None)))))"

subsection \<open>A sample instance of the collaborators\<close>

text \<open>
  An annotation bag as a list of key and value pairs, with getters that fail with
  \<open>MissingAnnotations\<close> on an absent key and with \<open>InvalidContent\<close> on a value of
  the wrong shape; a name parser that wants exactly one slash between two non-empty
  parts; a resolver over a list of known secrets. The theorems below do not depend on
  them; they give concrete inputs.
\<close>

type_synonym bag = "(string \<times> string) list"

definition bagString :: "string \<Rightarrow> bag \<Rightarrow> error + string" where
  "bagString k ing =
     (case map_of ing k of
        None \<Rightarrow> Inl MissingAnnotations
      | Some v \<Rightarrow> if v = [] then Inl (InvalidContent k v) else Inr v)"

fun digitsVal :: "string \<Rightarrow> nat \<Rightarrow> nat option" where
  "digitsVal [] acc = Some acc"
| "digitsVal (c # cs) acc =
     (if 48 \<le> (of_char c :: nat) \<and> (of_char c :: nat) \<le> 57
      then digitsVal cs (10 * acc + (of_char c - 48))
      else None)"

definition atoi :: "string \<Rightarrow> int option" where
  "atoi s =
     (case s of
        [] \<Rightarrow> None
      | c # cs \<Rightarrow>
          if c = CHR ''-'' then (if cs = [] then None else map_option (\<lambda>n. - int n) (digitsVal cs 0))
          else map_option int (digitsVal s 0))"

definition bagInt :: "string \<Rightarrow> bag \<Rightarrow> error + int" where
  "bagInt k ing =
     (case map_of ing k of
        None \<Rightarrow> Inl MissingAnnotations
      | Some v \<Rightarrow> (case atoi v of None \<Rightarrow> Inl (InvalidContent k v) | Some n \<Rightarrow> Inr n))"

definition bagBool :: "string \<Rightarrow> bag \<Rightarrow> error + bool" where
  "bagBool k ing =
     (case map_of ing k of
        None \<Rightarrow> Inl MissingAnnotations
      | Some v \<Rightarrow>
          if v = ''true'' then Inr True
          else if v = ''false'' then Inr False
          else Inl (InvalidContent k v))"

definition splitNameNS :: "string \<Rightarrow> string + string \<times> string" where
  "splitNameNS s =
     (let ns = takeWhile (\<lambda>c. c \<noteq> CHR ''/'') s; rest = dropWhile (\<lambda>c. c \<noteq> CHR ''/'') s
      in if ns = [] \<or> length rest < 2 \<or> CHR ''/'' \<in> set (tl rest)
         then Inl (''invalid format (namespace/name) found in '' @ s)
         else Inr (ns, tl rest))"

definition sampleDeps :: "(bag, string) deps" where
  "sampleDeps =
     \<lparr> GetStringAnnotation = bagString, GetIntAnnotation = bagInt,
       GetBoolAnnotation = bagBool, ParseNameNS = splitNameNS, zeroAuthSSLCert = [] \<rparr>"

definition sampleResolver :: "string authTLS" where
  "sampleResolver =
     \<lparr> GetAuthCertificate =
         (\<lambda>k. if k = ''ns/cert'' then Inr ''the-ca-bundle''
              else Inl (''secret '' @ k @ '' does not exist'')) \<rparr>"

text \<open>Annotation bags used as concrete inputs.\<close>

definition bagSecretOnly :: bag where
  "bagSecretOnly = [(''auth-tls-secret'', ''ns/cert'')]"

definition bagNegativeDepth :: bag where
  "bagNegativeDepth = [(''auth-tls-secret'', ''ns/cert''), (''auth-tls-verify-depth'', ''-3'')]"

definition bagOcspOn :: bag where
  "bagOcspOn = [(''auth-tls-secret'', ''ns/cert''), (''auth-tls-ocsp'', ''on'')]"


definition bagOcspLeafVerifyOff :: bag where
  "bagOcspLeafVerifyOff =
     [(''auth-tls-secret'', ''ns/cert''), (''auth-tls-verify-client'', ''off''),
      (''auth-tls-ocsp'', ''leaf'')]"



definition bagHttpResponder :: bag where
  "bagHttpResponder =
     [(''auth-tls-secret'', ''ns/cert''), (''auth-tls-ocsp-responder'', ''http://ocsp.example.com'')]"

definition bagHttpsResponder :: bag where
  "bagHttpsResponder =
     [(''auth-tls-secret'', ''ns/cert''), (''auth-tls-ocsp-responder'', ''https://ocsp.example.com'')]"

definition bagVerifyNone :: bag where
  "bagVerifyNone = [(''auth-tls-secret'', ''ns/cert''), (''auth-tls-verify-client'', ''none'')]"

definition bagOcspOnly :: bag where
  "bagOcspOnly = [(''auth-tls-secret'', ''ns/cert''), (''auth-tls-ocsp'', ''only'')]"

text \<open>What \<^verbatim>\<open>Parse\<close> builds from a bag that sets the secret and nothing else.\<close>

definition defaultsConfig :: "string Config" where
  "defaultsConfig =
     \<lparr> AuthSSLCert = ''the-ca-bundle'', VerifyClient = ''on'', ValidationDepth = 1,
       ErrorPage = [], PassCertToUpstream = False, OCSP = ''off'', OCSPResponder = [],
       OCSPCache = ''off'', AuthTLSError = [] \<rparr>"

text \<open>A store with two objects that differ in \<^verbatim>\<open>AuthTLSError\<close> only, and a third.\<close>

definition sampleStore :: "string store" where
  "sampleStore a =
     (if a = 0 then defaultsConfig
      else if a = 1 then defaultsConfig\<lparr> AuthTLSError := ''certificate expired'' \<rparr>
      else defaultsConfig\<lparr> ValidationDepth := 2 \<rparr>)"

section \<open>Properties\<close>

subsection \<open>The matcher\<close>

lemma accepts_Null: "accepts Null s = False"
  by (induction s) auto

lemma accepts_Eps: "accepts Eps s = (s = [])"
  by (cases s) (auto simp: accepts_Null)

lemma accepts_Chr: "accepts (Chr c) s = (s = [c])"
  by (cases s) (auto simp: accepts_Null accepts_Eps)

lemma accepts_Alt: "accepts (Alt p q) s = (accepts p s \<or> accepts q s)"
  by (induction s arbitrary: p q) auto

lemma accepts_Opt: "accepts (Opt p) s = (s = [] \<or> accepts p s)"
  by (cases s) auto

text \<open>A word is in a concatenation when it splits into a word of each part.\<close>

lemma accepts_Seq:
  "accepts (Seq p q) s = (\<exists>u v. s = u @ v \<and> accepts p u \<and> accepts q v)"
proof (induction s arbitrary: p q)
  case Nil
  then show ?case by simp
next
  case (Cons c cs)
  have split: "(\<exists>u v. c # cs = u @ v \<and> accepts p u \<and> accepts q v) =
        ((nullable p \<and> accepts q (c # cs)) \<or>
         (\<exists>u v. cs = u @ v \<and> accepts (deriv c p) u \<and> accepts q v))"
    (is "?L = ?R")
  proof
    assume ?L
    then obtain u v where uv: "c # cs = u @ v" "accepts p u" "accepts q v" by blast
    show ?R
    proof (cases u)
      case Nil
      with uv show ?thesis by simp
    next
      case (Cons x xs)
      with uv have "cs = xs @ v" "accepts (deriv c p) xs" by auto
      with uv show ?thesis by blast
    qed
  next
    assume ?R
    then show ?L
    proof
      assume "nullable p \<and> accepts q (c # cs)"
      then have "c # cs = [] @ (c # cs) \<and> accepts p [] \<and> accepts q (c # cs)" by simp
      then show ?L by blast
    next
      assume "\<exists>u v. cs = u @ v \<and> accepts (deriv c p) u \<and> accepts q v"
      then obtain u v where "cs = u @ v" "accepts (deriv c p) u" "accepts q v" by blast
      then have "c # cs = (c # u) @ v \<and> accepts p (c # u) \<and> accepts q v" by simp
      then show ?L by blast
    qed
  qed
  show ?case
    by (auto simp: split accepts_Alt Cons.IH)
qed

lemma accepts_Lit: "accepts (Lit w) s = (s = w)"
  by (induction w arbitrary: s) (auto simp: accepts_Eps accepts_Seq accepts_Chr)

text \<open>The prefix matcher finds exactly the strings that start with a word of the pattern.\<close>

lemma prefixMatch_accepts: "prefixMatch p s = (\<exists>u v. s = u @ v \<and> accepts p u)"
proof (induction s arbitrary: p)
  case Nil
  then show ?case by simp
next
  case (Cons c cs)
  have "(\<exists>u v. c # cs = u @ v \<and> accepts p u) =
        (nullable p \<or> (\<exists>u v. cs = u @ v \<and> accepts (deriv c p) u))"
    (is "?L = ?R")
  proof
    assume ?L
    then obtain u v where uv: "c # cs = u @ v" "accepts p u" by blast
    show ?R
    proof (cases u)
      case Nil
      with uv show ?thesis by simp
    next
      case (Cons x xs)
      with uv have "cs = xs @ v" "accepts (deriv c p) xs" by auto
      then show ?thesis by blast
    qed
  next
    assume ?R
    then show ?L
    proof
      assume "nullable p"
      then have "c # cs = [] @ (c # cs) \<and> accepts p []" by simp
      then show ?L by blast
    next
      assume "\<exists>u v. cs = u @ v \<and> accepts (deriv c p) u"
      then obtain u v where "cs = u @ v" "accepts (deriv c p) u" by blast
      then have "c # cs = (c # u) @ v \<and> accepts p (c # u)" by simp
      then show ?L by blast
    qed
  qed
  then show ?case by (simp add: Cons.IH)
qed

text \<open>The unanchored search finds exactly the strings that contain a word of the pattern.\<close>

lemma search_accepts: "search p s = (\<exists>t u v. s = t @ u @ v \<and> accepts p u)"
proof (induction s)
  case Nil
  then show ?case by simp
next
  case (Cons c cs)
  have "(\<exists>t u v. c # cs = t @ u @ v \<and> accepts p u) =
        ((\<exists>u v. c # cs = u @ v \<and> accepts p u) \<or> (\<exists>t u v. cs = t @ u @ v \<and> accepts p u))"
    (is "?L = ?R")
  proof
    assume ?L
    then obtain t u v where tuv: "c # cs = t @ u @ v" "accepts p u" by blast
    show ?R
    proof (cases t)
      case Nil
      with tuv show ?thesis by auto
    next
      case (Cons x xs)
      with tuv have "cs = xs @ u @ v" by simp
      with tuv show ?thesis by blast
    qed
  next
    assume ?R
    then show ?L
    proof
      assume "\<exists>u v. c # cs = u @ v \<and> accepts p u"
      then obtain u v where "c # cs = [] @ u @ v" "accepts p u" by auto
      then show ?L by blast
    next
      assume "\<exists>t u v. cs = t @ u @ v \<and> accepts p u"
      then obtain t u v where "c # cs = (c # t) @ u @ v" "accepts p u" by auto
      then show ?L by blast
    qed
  qed
  then show ?case
    by (simp only: search.simps Cons.IH prefixMatch_accepts)
qed

text \<open>The two enumerations match every string that has one of their words inside.\<close>

lemma authVerifyClientRegex_iff:
  "MatchString authVerifyClientRegex s =
     (\<exists>t v. s = t @ ''on'' @ v \<or> s = t @ ''off'' @ v
          \<or> s = t @ ''optional'' @ v \<or> s = t @ ''optional_no_ca'' @ v)"
  unfolding authVerifyClientRegex_def
  by (simp only: MatchString.simps search_accepts accepts_Alt accepts_Lit) blast

lemma authOCSPRegex_iff:
  "MatchString authOCSPRegex s =
     (\<exists>t v. s = t @ ''on'' @ v \<or> s = t @ ''off'' @ v \<or> s = t @ ''leaf'' @ v)"
  unfolding authOCSPRegex_def
  by (simp only: MatchString.simps search_accepts accepts_Alt accepts_Lit) blast

text \<open>The pattern \<^verbatim>\<open>^http?://\<close> has two words.\<close>

lemma httpOnly_words:
  "accepts (Seq (Lit ''htt'') (Seq (Opt (Chr CHR ''p'')) (Lit ''://''))) u =
     (u = ''http://'' \<or> u = ''htt://'')"
  by (auto simp: accepts_Seq accepts_Lit accepts_Opt accepts_Chr simp del: Lit.simps)

lemma httpOnlyRegex_iff:
  "MatchString httpOnlyRegex v = (prefix ''http://'' v \<or> prefix ''htt://'' v)"
  unfolding httpOnlyRegex_def prefix_def
  by (simp only: MatchString.simps prefixMatch_accepts httpOnly_words) blast

subsection \<open>What a successful Parse returns\<close>

lemma Parse_success_fields:
  assumes "Parse d a ing = (Some cfg, None)"
  shows "VerifyClient cfg = parseVerifyClient d ing"
    and "ValidationDepth cfg = parseValidationDepth d ing"
    and "OCSP cfg = parseOCSP d ing"
    and "OCSPResponder cfg = parseOCSPResponder d ing"
    and "\<not> (EqualFold (parseOCSP d ing) ''on'' \<and> \<not> EqualFold (parseVerifyClient d ing) ''on'')"
  using assms
  by (auto simp: Parse_def Let_def split: sum.splits if_splits)

subsection \<open>Validation depth\<close>

text \<open>
  C7. On success, \<^verbatim>\<open>ValidationDepth\<close> is 1 when the getter of
  \<^verbatim>\<open>auth-tls-verify-depth\<close> fails (absent or unparsable) or gives zero, and is the
  integer the getter gives otherwise, negative integers included.
\<close>

theorem Parse_depth_default_or_parsed:
  assumes "Parse d a ing = (Some cfg, None)"
  shows "(GetIntAnnotation d ''auth-tls-verify-depth'' ing = Inl e \<longrightarrow> ValidationDepth cfg = 1)
       \<and> (GetIntAnnotation d ''auth-tls-verify-depth'' ing = Inr 0 \<longrightarrow> ValidationDepth cfg = 1)
       \<and> (GetIntAnnotation d ''auth-tls-verify-depth'' ing = Inr n \<and> n \<noteq> 0 \<longrightarrow>
            ValidationDepth cfg = n)
       \<and> (GetIntAnnotation d ''auth-tls-verify-depth'' ing = Inr n \<and> n < 0 \<longrightarrow>
            ValidationDepth cfg = n)"
  using Parse_success_fields(2) [OF assms]
  by (simp add: parseValidationDepth_def defaultAuthTLSDepth_def)

theorem Parse_depth_default_or_parsed_witness:
  "Parse sampleDeps sampleResolver bagNegativeDepth =
     (Some (defaultsConfig\<lparr> ValidationDepth := - 3 \<rparr>), None)
   \<and> GetIntAnnotation sampleDeps ''auth-tls-verify-depth'' bagNegativeDepth = Inr (- 3)
   \<and> ValidationDepth (defaultsConfig\<lparr> ValidationDepth := - 3 \<rparr>) = - 3"
proof -
  have run: "Parse sampleDeps sampleResolver bagNegativeDepth =
      (Some (defaultsConfig\<lparr> ValidationDepth := - 3 \<rparr>), None)"
    by code_simp
  have got: "GetIntAnnotation sampleDeps ''auth-tls-verify-depth'' bagNegativeDepth = Inr (- 3)"
    by code_simp
  from Parse_depth_default_or_parsed [OF run, of _ "- 3"] got
  have "ValidationDepth (defaultsConfig\<lparr> ValidationDepth := - 3 \<rparr>) = - 3" by simp
  with run got show ?thesis by blast
qed

text \<open>
  C10. On success, \<^verbatim>\<open>ValidationDepth\<close> is never zero: it is the default 1 or the
  nonzero integer the getter gave.
\<close>

theorem Parse_depth_never_zero:
  assumes "Parse d a ing = (Some cfg, None)"
  shows "ValidationDepth cfg \<noteq> 0
       \<and> (ValidationDepth cfg = 1
          \<or> GetIntAnnotation d ''auth-tls-verify-depth'' ing = Inr (ValidationDepth cfg))"
  using Parse_success_fields(2) [OF assms]
  by (simp add: parseValidationDepth_def defaultAuthTLSDepth_def split: sum.splits)

theorem Parse_depth_never_zero_witness:
  "Parse sampleDeps sampleResolver bagSecretOnly = (Some defaultsConfig, None)
   \<and> ValidationDepth defaultsConfig \<noteq> 0"
proof -
  have run: "Parse sampleDeps sampleResolver bagSecretOnly = (Some defaultsConfig, None)"
    by code_simp
  from Parse_depth_never_zero [OF run] run show ?thesis by blast
qed

subsection \<open>The cross-field check\<close>

text \<open>
  C1, as stated, fails: with \<^verbatim>\<open>auth-tls-ocsp: leaf\<close> and
  \<^verbatim>\<open>auth-tls-verify-client: off\<close> \<^verbatim>\<open>Parse\<close> succeeds, and the result has an OCSP
  field that is not "off" next to a VerifyClient field that is not "on". The check of
  line 155 looks for OCSP "on" only.
\<close>

theorem Parse_ocsp_leaf_verify_off:
  "Parse sampleDeps sampleResolver bagOcspLeafVerifyOff =
     (Some (defaultsConfig\<lparr> VerifyClient := ''off'', OCSP := ''leaf'' \<rparr>), None)
   \<and> \<not> EqualFold (OCSP (defaultsConfig\<lparr> VerifyClient := ''off'', OCSP := ''leaf'' \<rparr>)) ''off''
   \<and> \<not> EqualFold (VerifyClient (defaultsConfig\<lparr> VerifyClient := ''off'', OCSP := ''leaf'' \<rparr>)) ''on''"
  by code_simp

text \<open>
  C1, amended. On success, if the OCSP field is case-insensitively equal to "on", the
  VerifyClient field is case-insensitively equal to "on".
\<close>

theorem Parse_ocsp_on_has_verify_on:
  assumes "Parse d a ing = (Some cfg, None)"
  shows "EqualFold (OCSP cfg) ''on'' \<longrightarrow> EqualFold (VerifyClient cfg) ''on''"
  using Parse_success_fields(1,3,5) [OF assms]
  by simp

theorem Parse_ocsp_on_has_verify_on_witness:
  "Parse sampleDeps sampleResolver bagOcspOn = (Some (defaultsConfig\<lparr> OCSP := ''on'' \<rparr>), None)
   \<and> EqualFold (OCSP (defaultsConfig\<lparr> OCSP := ''on'' \<rparr>)) ''on''
   \<and> EqualFold (VerifyClient (defaultsConfig\<lparr> OCSP := ''on'' \<rparr>)) ''on''"
proof -
  have run: "Parse sampleDeps sampleResolver bagOcspOn =
      (Some (defaultsConfig\<lparr> OCSP := ''on'' \<rparr>), None)"
    by code_simp
  have ocsp: "EqualFold (OCSP (defaultsConfig\<lparr> OCSP := ''on'' \<rparr>)) ''on''"
    by code_simp
  from Parse_ocsp_on_has_verify_on [OF run] ocsp
  have "EqualFold (VerifyClient (defaultsConfig\<lparr> OCSP := ''on'' \<rparr>)) ''on''" by blast
  with run ocsp show ?thesis by blast
qed



subsection \<open>The secret reference\<close>




subsection \<open>The OCSP responder\<close>

text \<open>
  C4, as stated, fails: a responder that starts with \<^verbatim>\<open>https://\<close> is not kept. The
  pattern \<^verbatim>\<open>^http?://\<close> of \<^verbatim>\<open>httpOnlyRegex\<close> has no place for the s.
\<close>

theorem Parse_https_responder_dropped:
  "GetStringAnnotation sampleDeps ''auth-tls-ocsp-responder'' bagHttpsResponder =
     Inr ''https://ocsp.example.com''
   \<and> Parse sampleDeps sampleResolver bagHttpsResponder = (Some defaultsConfig, None)
   \<and> OCSPResponder defaultsConfig = []"
  by code_simp

text \<open>
  C4, amended. On success, \<^verbatim>\<open>OCSPResponder\<close> is the annotation value when that value
  starts with \<^verbatim>\<open>http://\<close>, and is empty when the getter fails (annotation absent or
  unreadable) or the value starts with neither \<^verbatim>\<open>http://\<close> nor \<^verbatim>\<open>htt://\<close>; in
  particular every value that starts with \<^verbatim>\<open>https://\<close> is replaced by the empty
  string. The annotation never causes an error: whatever its getter returns, the error
  result of \<^verbatim>\<open>Parse\<close> is the same.
\<close>

theorem Parse_responder_value:
  assumes "Parse d a ing = (Some cfg, None)"
  shows "(GetStringAnnotation d ''auth-tls-ocsp-responder'' ing = Inr v \<and> prefix ''http://'' v \<longrightarrow>
            OCSPResponder cfg = v)
       \<and> (GetStringAnnotation d ''auth-tls-ocsp-responder'' ing = Inl e \<longrightarrow> OCSPResponder cfg = [])
       \<and> (GetStringAnnotation d ''auth-tls-ocsp-responder'' ing = Inr v
            \<and> \<not> prefix ''http://'' v \<and> \<not> prefix ''htt://'' v \<longrightarrow> OCSPResponder cfg = [])
       \<and> (GetStringAnnotation d ''auth-tls-ocsp-responder'' ing = Inr v \<and> prefix ''https://'' v \<longrightarrow>
            OCSPResponder cfg = [])
       \<and> snd (Parse (d\<lparr> GetStringAnnotation :=
                         (GetStringAnnotation d)(''auth-tls-ocsp-responder'' := g) \<rparr>) a ing)
           = snd (Parse d a ing)"
proof -
  have field: "OCSPResponder cfg = parseOCSPResponder d ing"
    by (rule Parse_success_fields(4) [OF assms])
  have https: "prefix ''https://'' v \<Longrightarrow> \<not> prefix ''http://'' v \<and> \<not> prefix ''htt://'' v"
    by (auto simp: prefix_def)
  have kept: "GetStringAnnotation d ''auth-tls-ocsp-responder'' ing = Inr v \<and> prefix ''http://'' v \<longrightarrow>
      OCSPResponder cfg = v"
    by (simp add: field parseOCSPResponder_def httpOnlyRegex_iff)
  have failed: "GetStringAnnotation d ''auth-tls-ocsp-responder'' ing = Inl e \<longrightarrow>
      OCSPResponder cfg = []"
    by (simp add: field parseOCSPResponder_def)
  have dropped: "GetStringAnnotation d ''auth-tls-ocsp-responder'' ing = Inr v
      \<and> \<not> prefix ''http://'' v \<and> \<not> prefix ''htt://'' v \<longrightarrow> OCSPResponder cfg = []"
    by (simp add: field parseOCSPResponder_def httpOnlyRegex_iff)
  have secure: "GetStringAnnotation d ''auth-tls-ocsp-responder'' ing = Inr v
      \<and> prefix ''https://'' v \<longrightarrow> OCSPResponder cfg = []"
    using dropped https by blast
  let ?d = "d\<lparr> GetStringAnnotation := (GetStringAnnotation d)(''auth-tls-ocsp-responder'' := g) \<rparr>"
  have secret: "GetStringAnnotation ?d ''auth-tls-secret'' ing =
      GetStringAnnotation d ''auth-tls-secret'' ing"
    by simp
  have names: "ParseNameNS ?d = ParseNameNS d"
    by simp
  have verify: "parseVerifyClient ?d ing = parseVerifyClient d ing"
    by (simp add: parseVerifyClient_def)
  have ocsp: "parseOCSP ?d ing = parseOCSP d ing"
    by (simp add: parseOCSP_def)
  have same: "snd (Parse ?d a ing) = snd (Parse d a ing)"
    unfolding Parse_def secret names verify ocsp
    by (auto simp: Let_def split: sum.splits)
  from kept failed dropped secure same show ?thesis by blast
qed

theorem Parse_responder_value_witness:
  "Parse sampleDeps sampleResolver bagHttpResponder =
     (Some (defaultsConfig\<lparr> OCSPResponder := ''http://ocsp.example.com'' \<rparr>), None)
   \<and> GetStringAnnotation sampleDeps ''auth-tls-ocsp-responder'' bagHttpResponder =
       Inr ''http://ocsp.example.com''
   \<and> prefix ''http://'' ''http://ocsp.example.com''
   \<and> OCSPResponder (defaultsConfig\<lparr> OCSPResponder := ''http://ocsp.example.com'' \<rparr>) =
       ''http://ocsp.example.com''
   \<and> Parse sampleDeps sampleResolver bagHttpsResponder = (Some defaultsConfig, None)
   \<and> GetStringAnnotation sampleDeps ''auth-tls-ocsp-responder'' bagHttpsResponder =
       Inr ''https://ocsp.example.com''
   \<and> prefix ''https://'' ''https://ocsp.example.com''
   \<and> OCSPResponder defaultsConfig = []"
proof -
  have run1: "Parse sampleDeps sampleResolver bagHttpResponder =
      (Some (defaultsConfig\<lparr> OCSPResponder := ''http://ocsp.example.com'' \<rparr>), None)"
    by code_simp
  have got1: "GetStringAnnotation sampleDeps ''auth-tls-ocsp-responder'' bagHttpResponder =
      Inr ''http://ocsp.example.com''"
    by code_simp
  have pre1: "prefix ''http://'' ''http://ocsp.example.com''"
    by simp
  have run2: "Parse sampleDeps sampleResolver bagHttpsResponder = (Some defaultsConfig, None)"
    by code_simp
  have got2: "GetStringAnnotation sampleDeps ''auth-tls-ocsp-responder'' bagHttpsResponder =
      Inr ''https://ocsp.example.com''"
    by code_simp
  have pre2: "prefix ''https://'' ''https://ocsp.example.com''"
    by simp
  from Parse_responder_value [OF run1, of "''http://ocsp.example.com''"] got1 pre1
  have r1: "OCSPResponder (defaultsConfig\<lparr> OCSPResponder := ''http://ocsp.example.com'' \<rparr>) =
      ''http://ocsp.example.com''"
    by blast
  from Parse_responder_value [OF run2, of "''https://ocsp.example.com''"] got2 pre2
  have r2: "OCSPResponder defaultsConfig = []"
    by blast
  from run1 got1 pre1 r1 run2 got2 pre2 r2 show ?thesis by blast
qed

subsection \<open>The enumerated fields\<close>

text \<open>
  What the two fields hold on success: the annotation value whenever it has a word of
  the enumeration anywhere inside, the default otherwise.
\<close>

lemma Parse_VerifyClient_contains:
  assumes "Parse d a ing = (Some cfg, None)"
    and "GetStringAnnotation d ''auth-tls-verify-client'' ing = Inr (t @ ''on'' @ v)"
  shows "VerifyClient cfg = t @ ''on'' @ v"
proof -
  have "MatchString authVerifyClientRegex (t @ ''on'' @ v)"
    unfolding authVerifyClientRegex_iff by blast
  with assms(2) Parse_success_fields(1) [OF assms(1)] show ?thesis
    by (simp add: parseVerifyClient_def)
qed

lemma Parse_OCSP_contains:
  assumes "Parse d a ing = (Some cfg, None)"
    and "GetStringAnnotation d ''auth-tls-ocsp'' ing = Inr (t @ ''on'' @ v)"
  shows "OCSP cfg = t @ ''on'' @ v"
proof -
  have "MatchString authOCSPRegex (t @ ''on'' @ v)"
    unfolding authOCSPRegex_iff by blast
  with assms(2) Parse_success_fields(3) [OF assms(1)] show ?thesis
    by (simp add: parseOCSP_def)
qed

text \<open>
  C5 at \<^verbatim>\<open>auth-tls-verify-client: none\<close>. The value is none of on, off, optional and
  optional_no_ca, yet it is kept: \<^verbatim>\<open>authVerifyClientRegex\<close> is not anchored, and
  \<^verbatim>\<open>MatchString\<close> finds "on" inside "none".
\<close>

theorem Parse_VerifyClient_none_kept:
  "GetStringAnnotation sampleDeps ''auth-tls-verify-client'' bagVerifyNone = Inr ''none''
   \<and> Parse sampleDeps sampleResolver bagVerifyNone =
       (Some (defaultsConfig\<lparr> VerifyClient := ''none'' \<rparr>), None)"
  by code_simp

text \<open>
  C6 at \<^verbatim>\<open>auth-tls-ocsp: only\<close>. The value is none of on, off and leaf, yet it is
  kept: \<^verbatim>\<open>authOCSPRegex\<close> is not anchored, and \<^verbatim>\<open>MatchString\<close> finds "on" inside
  "only".
\<close>

theorem Parse_OCSP_only_kept:
  "GetStringAnnotation sampleDeps ''auth-tls-ocsp'' bagOcspOnly = Inr ''only''
   \<and> Parse sampleDeps sampleResolver bagOcspOnly =
       (Some (defaultsConfig\<lparr> OCSP := ''only'' \<rparr>), None)"
  by code_simp

subsection \<open>Equal\<close>

lemma Equal_present:
  "Equal certEqual h (Some i) (Some j) =
     Inr (i = j \<or>
          (certEqual (AuthSSLCert (h i)) (AuthSSLCert (h j))
           \<and> VerifyClient (h i) = VerifyClient (h j)
           \<and> ValidationDepth (h i) = ValidationDepth (h j)
           \<and> ErrorPage (h i) = ErrorPage (h j)
           \<and> PassCertToUpstream (h i) = PassCertToUpstream (h j)
           \<and> OCSP (h i) = OCSP (h j)
           \<and> OCSPResponder (h i) = OCSPResponder (h j)
           \<and> OCSPCache (h i) = OCSPCache (h j)))"
  by (simp add: Equal_def deref_def)

lemma Equal_absent:
  "Equal certEqual h None q = Inr (q = None)"
  "Equal certEqual h p None = Inr (p = None)"
  by (auto simp: Equal_def)

text \<open>
  C8. Given that the certificate's own equality is reflexive and symmetric,
  \<^verbatim>\<open>Equal\<close> is total (it returns a boolean and never dereferences nil), reflexive and
  symmetric over nil and every stored configuration; nil equals nil and no present
  configuration; and two present configurations are equal exactly when the certificates
  are equal by their own equality and the seven other fields of the data model are
  equal.
\<close>

theorem Equal_total_reflexive_symmetric:
  assumes crefl: "\<And>x. certEqual x x"
    and csym: "\<And>x y. certEqual x y = certEqual y x"
  shows "Equal certEqual h None None = Inr True
       \<and> Equal certEqual h None (Some j) = Inr False
       \<and> Equal certEqual h (Some i) None = Inr False
       \<and> (\<exists>r. Equal certEqual h p q = Inr r)
       \<and> Equal certEqual h p p = Inr True
       \<and> Equal certEqual h p q = Equal certEqual h q p
       \<and> Equal certEqual h (Some i) (Some j) =
           Inr (certEqual (AuthSSLCert (h i)) (AuthSSLCert (h j))
                \<and> VerifyClient (h i) = VerifyClient (h j)
                \<and> ValidationDepth (h i) = ValidationDepth (h j)
                \<and> ErrorPage (h i) = ErrorPage (h j)
                \<and> PassCertToUpstream (h i) = PassCertToUpstream (h j)
                \<and> OCSP (h i) = OCSP (h j)
                \<and> OCSPResponder (h i) = OCSPResponder (h j)
                \<and> OCSPCache (h i) = OCSPCache (h j))"
proof -
  have total: "\<exists>r. Equal certEqual h p q = Inr r"
  proof (cases p)
    case None
    then show ?thesis by (simp add: Equal_absent)
  next
    case (Some i)
    then show ?thesis by (cases q) (auto simp: Equal_absent Equal_present)
  qed
  have refl: "Equal certEqual h p p = Inr True"
    by (simp add: Equal_def)
  have sym: "Equal certEqual h p q = Equal certEqual h q p"
  proof (cases p)
    case None
    then show ?thesis by (cases q) (simp_all add: Equal_absent)
  next
    case pi: (Some i)
    show ?thesis
    proof (cases q)
      case None
      with pi show ?thesis by (simp add: Equal_absent)
    next
      case (Some j)
      have "certEqual (AuthSSLCert (h i)) (AuthSSLCert (h j)) =
            certEqual (AuthSSLCert (h j)) (AuthSSLCert (h i))"
        by (rule csym)
      with pi Some show ?thesis by (auto simp: Equal_present)
    qed
  qed
  have fields: "Equal certEqual h (Some i) (Some j) =
           Inr (certEqual (AuthSSLCert (h i)) (AuthSSLCert (h j))
                \<and> VerifyClient (h i) = VerifyClient (h j)
                \<and> ValidationDepth (h i) = ValidationDepth (h j)
                \<and> ErrorPage (h i) = ErrorPage (h j)
                \<and> PassCertToUpstream (h i) = PassCertToUpstream (h j)
                \<and> OCSP (h i) = OCSP (h j)
                \<and> OCSPResponder (h i) = OCSPResponder (h j)
                \<and> OCSPCache (h i) = OCSPCache (h j))"
    using crefl by (auto simp: Equal_present)
  from total refl sym fields show ?thesis
    by (simp add: Equal_absent)
qed

theorem Equal_total_reflexive_symmetric_witness:
  "Equal (=) sampleStore None None = Inr True
   \<and> Equal (=) sampleStore None (Some 2) = Inr False
   \<and> Equal (=) sampleStore (Some 0) None = Inr False
   \<and> Equal (=) sampleStore (Some 2) (Some 2) = Inr True
   \<and> Equal (=) sampleStore (Some 0) (Some 2) = Equal (=) sampleStore (Some 2) (Some 0)
   \<and> Equal (=) sampleStore (Some 0) (Some 2) = Inr False"
proof -
  have r: "\<And>x :: string. x = x"
    by simp
  have s: "\<And>x y :: string. (x = y) = (y = x)"
    by (rule eq_commute)
  note inst = Equal_total_reflexive_symmetric
    [of "(=)" sampleStore 2 0 "Some 2" "Some 2", OF r s]
  note inst2 = Equal_total_reflexive_symmetric
    [of "(=)" sampleStore 2 0 "Some 0" "Some 2", OF r s]
  have differ: "ValidationDepth (sampleStore 0) \<noteq> ValidationDepth (sampleStore 2)"
    by code_simp
  from inst inst2 differ show ?thesis by simp
qed

text \<open>
  C9. Two present configurations whose certificates are equal by the certificate's own
  equality and whose seven other compared fields agree are equal, whatever their
  \<^verbatim>\<open>AuthTLSError\<close> fields hold: \<^verbatim>\<open>Equal\<close> never reads that field.
\<close>

theorem Equal_ignores_AuthTLSError:
  assumes "certEqual (AuthSSLCert (h i)) (AuthSSLCert (h j))"
    and "VerifyClient (h i) = VerifyClient (h j)"
    and "ValidationDepth (h i) = ValidationDepth (h j)"
    and "ErrorPage (h i) = ErrorPage (h j)"
    and "PassCertToUpstream (h i) = PassCertToUpstream (h j)"
    and "OCSP (h i) = OCSP (h j)"
    and "OCSPResponder (h i) = OCSPResponder (h j)"
    and "OCSPCache (h i) = OCSPCache (h j)"
  shows "Equal certEqual h (Some i) (Some j) = Inr True"
  using assms by (simp add: Equal_present)

theorem Equal_ignores_AuthTLSError_witness:
  "AuthTLSError (sampleStore 0) = []
   \<and> AuthTLSError (sampleStore 1) = ''certificate expired''
   \<and> sampleStore 1 = (sampleStore 0)\<lparr> AuthTLSError := ''certificate expired'' \<rparr>
   \<and> Equal (=) sampleStore (Some 0) (Some 1) = Inr True"
proof -
  have e0: "AuthTLSError (sampleStore 0) = []"
    by code_simp
  have e1: "AuthTLSError (sampleStore 1) = ''certificate expired''"
    by code_simp
  have upd: "sampleStore 1 = (sampleStore 0)\<lparr> AuthTLSError := ''certificate expired'' \<rparr>"
    by (simp add: sampleStore_def)
  have "Equal (=) sampleStore (Some 0) (Some 1) = Inr True"
    by (rule Equal_ignores_AuthTLSError) (simp_all add: sampleStore_def)
  with e0 e1 upd show ?thesis by blast
qed

end
